theory Spec2Isabelle
  imports Main
begin

section \<open>The diffstat comparison script\<close>

text \<open>
  The program is a Ruby script: it probes a repository with the tool under test
  (\<open>pepper\<close>), fetches the revision log with the native client, and for every revision
  compares the diffstat printed by \<open>pepper\<close> with the one that \<open>diffstat\<close> computes from
  the native diff. Everything the script does to the outside world is a subprocess, a
  change of directory, a file or a line of output; the model records these as a list of
  events, in the order in which the script performs them.

  Strings are byte strings (\<open>char list\<close>). What a subprocess prints and how it exits is
  arbitrary, and is a parameter of the model.

  The script is given twice. \<open>run\<close>, with \<open>compare_repo\<close>, \<open>compare_loop\<close>,
  \<open>compare_rev\<close> and \<open>report\<close>, is the script on an operating system where no call fails:
  every subprocess is spawned, and \<open>Dir.chdir\<close> and \<open>File.open\<close> succeed. \<open>run_sys\<close>, with
  \<open>compare_repo_sys\<close>, \<open>compare_loop_sys\<close>, \<open>compare_rev_sys\<close> and \<open>report_sys\<close>, is the
  script where \<open>IO.popen\<close>, \<open>Dir.chdir\<close> and \<open>File.open\<close> may raise \<open>SystemCallError\<close>,
  which nothing rescues; which calls fail is a further parameter. The two agree when no
  call fails. The temporary files and the reads and writes on open streams are taken to
  succeed in both.
\<close>

subsection \<open>Ruby's string and array primitives\<close>

definition nl :: char where
  "nl = CHR 0x0A"

definition tab :: char where
  "tab = CHR 0x09"

definition quote :: char where
  "quote = CHR 0x27"

text \<open>\<open>String#strip\<close> removes leading and trailing null, tab, line feed, vertical tab,
  form feed, carriage return and space.\<close>

definition is_space :: "char \<Rightarrow> bool" where
  "is_space c = (c \<in> set [CHR 0x00, CHR 0x09, CHR 0x0A, CHR 0x0B, CHR 0x0C, CHR 0x0D, CHR 0x20])"

definition strip :: "string \<Rightarrow> string" where
  "strip s = rev (dropWhile is_space (rev (dropWhile is_space s)))"

text \<open>\<open>IO#readlines\<close>: the output cut after every line feed; each line keeps its
  terminator, and a last line without one is kept as it is.\<close>

fun readlines :: "string \<Rightarrow> string list" where
  "readlines [] = []"
| "readlines (c # cs) =
     (if c = nl then [c] # readlines cs
      else (case readlines cs of [] \<Rightarrow> [[c]] | l # ls \<Rightarrow> (c # l) # ls))"

text \<open>\<open>Array#join\<close> without a separator.\<close>

definition join :: "string list \<Rightarrow> string" where
  "join ls = concat ls"

text \<open>\<open>IO#puts\<close> of an array writes every element followed by a line feed, unless the
  element already ends with one; of an empty array it writes a single line feed.\<close>

definition puts_line :: "string \<Rightarrow> string" where
  "puts_line s = (if s \<noteq> [] \<and> last s = nl then s else s @ [nl])"

definition puts_array :: "string list \<Rightarrow> string" where
  "puts_array ls = (if ls = [] then [nl] else concat (map puts_line ls))"

text \<open>\<open>Array#[]\<close> is \<open>nil\<close> out of range.\<close>

definition at :: "'a list \<Rightarrow> nat \<Rightarrow> 'a option" where
  "at xs i = (if i < length xs then Some (xs ! i) else None)"

text \<open>\<open>Integer#to_s\<close>, as interpolated into the progress line.\<close>

definition digit_char :: "nat \<Rightarrow> char" where
  "digit_char d = char_of (48 + d)"

fun to_s :: "nat \<Rightarrow> string" where
  "to_s n = (if n < 10 then [digit_char n] else to_s (n div 10) @ [digit_char (n mod 10)])"

text \<open>\<open>sprintf\<close> with the one directive the command templates use, \<open>%s\<close>. Too few
  arguments raise \<open>ArgumentError\<close> (here \<open>None\<close>, as does any other directive, which the
  model does not cover); surplus arguments are ignored.\<close>

fun sprintf :: "string \<Rightarrow> string list \<Rightarrow> string option" where
  "sprintf [] args = Some []"
| "sprintf [c] args = (if c = CHR ''%'' then None else Some [c])"
| "sprintf (c # d # fmt) args =
     (if c = CHR ''%'' then
        (if d = CHR ''s'' then
           (case args of [] \<Rightarrow> None
            | a # as \<Rightarrow> map_option (\<lambda>r. a @ r) (sprintf fmt as))
         else None)
      else map_option (\<lambda>r. c # r) (sprintf (d # fmt) args))"

subsection \<open>The regular expressions\<close>

text \<open>In Ruby \<open>^\<close> matches at the start of the string and after every line feed.
  \<open>bol_search m True s\<close> tries the matcher \<open>m\<close> at each of these positions, leftmost
  first. All three patterns of the script consume at least one character, so there is
  nothing to try at the end of the string.\<close>

fun bol_search :: "(string \<Rightarrow> 'a option) \<Rightarrow> bool \<Rightarrow> string \<Rightarrow> 'a option" where
  "bol_search m bol [] = None"
| "bol_search m bol (c # cs) =
     (case (if bol then m (c # cs) else None) of
        Some r \<Rightarrow> Some r
      | None \<Rightarrow> bol_search m (c = nl) cs)"

definition is_digit :: "char \<Rightarrow> bool" where
  "is_digit c = (c \<in> set ''0123456789'')"

text \<open>The two \<open>:logregex\<close> literals: \<open>/^r([0-9]+)/\<close> and \<open>/^[0-9]+:(.*)/\<close>.\<close>

datatype regex = Rx_r_digits | Rx_digits_colon_any

fun regex_source :: "regex \<Rightarrow> string" where
  "regex_source Rx_r_digits = ''^r([0-9]+)''"
| "regex_source Rx_digits_colon_any = ''^[0-9]+:(.*)''"

text \<open>What follows \<open>^\<close>, matched at the head of \<open>s\<close>; the result is the first capture.
  \<open>[0-9]+\<close> is greedy and \<open>.\<close> does not match a line feed.\<close>

fun match_here :: "regex \<Rightarrow> string \<Rightarrow> string option" where
  "match_here Rx_r_digits s =
     (case s of [] \<Rightarrow> None
      | c # cs \<Rightarrow>
          if c = CHR ''r'' \<and> takeWhile is_digit cs \<noteq> [] then Some (takeWhile is_digit cs)
          else None)"
| "match_here Rx_digits_colon_any s =
     (if takeWhile is_digit s = [] then None
      else (case dropWhile is_digit s of [] \<Rightarrow> None
            | c # cs \<Rightarrow>
                if c = CHR '':'' then Some (takeWhile (\<lambda>x. x \<noteq> nl) cs) else None))"

definition regex_match :: "regex \<Rightarrow> string \<Rightarrow> string option" where
  "regex_match rx s = bol_search (match_here rx) True s"

text \<open>\<open>url.match(/^\//)\<close>, used for its truth value only.\<close>

definition match_slash :: "string \<Rightarrow> bool" where
  "match_slash s =
     (bol_search (\<lambda>t. case t of [] \<Rightarrow> None | c # _ \<Rightarrow> if c = CHR ''/'' then Some () else None)
        True s \<noteq> None)"

subsection \<open>The command table\<close>

record entry =
  log :: string
  logregex :: "regex option"
  single :: string
  double :: string
  passurl :: bool

definition diffcmd :: "string \<Rightarrow> entry option" where
  "diffcmd = map_of
     [(''subversion'',
        \<lparr>log = ''svn log -q %s'', logregex = Some Rx_r_digits,
         single = ''svn diff -c %s %s'', double = ''svn diff -r %s:%s %s'',
         passurl = True\<rparr>),
      (''git'',
        \<lparr>log = ''git rev-list HEAD'', logregex = None,
         single = ''git diff-tree -U --no-renames --root %s'',
         double = ''git diff-tree -U --no-renames %s %s'',
         passurl = False\<rparr>),
      (''mercurial'',
        \<lparr>log = ''hg log -q'', logregex = Some Rx_digits_colon_any,
         single = ''hg diff -c %s'', double = ''hg diff -r %s -r %s'',
         passurl = False\<rparr>)]"

subsection \<open>The environment, events and outcomes\<close>

text \<open>The environment gives the directory the script is launched in, the result of
  \<open>File.absolute_path\<close> there, the paths of the two temporary files, and for every
  subprocess (working directory, command line, standard input) what it prints and its
  exit status.\<close>

record env =
  pwd0 :: string
  absolute_path :: "string \<Rightarrow> string"
  tmp_type :: string
  tmp_diff :: string
  popen :: "string \<Rightarrow> string \<Rightarrow> string \<Rightarrow> string \<times> nat"

datatype event =
    Stdout string
  | Stderr string
  | TempWrite string string
  | Spawn string string string
  | Chdir string
  | FileWrite string string

datatype exn = RuntimeError string | NoMethodError | ArgumentError | SystemCallError

datatype outcome = Exit nat | Uncaught exn

text \<open>The interpreter ends with status 1 on an uncaught exception.\<close>

fun exit_status :: "outcome \<Rightarrow> nat" where
  "exit_status (Exit n) = n"
| "exit_status (Uncaught x) = 1"

subsection \<open>Arguments and probe\<close>

definition parse_args :: "env \<Rightarrow> string list \<Rightarrow> exn + (string \<times> string)" where
  "parse_args e argv =
     (if \<not> length argv > 0 then Inl (RuntimeError ''Missing argument'')
      else Inr (argv ! 0,
                if length argv > 1 then absolute_path e (argv ! 1) else ''pepper''))"

definition type_script :: string where
  "type_script =
     ''function run(self)'' @ [nl, tab] @
     ''local repo = self:repository()'' @ [nl, tab] @
     ''print(repo:type())'' @ [nl, tab] @
     ''print(repo:url())'' @ [nl] @
     ''end''"

definition probe_cmd :: "env \<Rightarrow> string \<Rightarrow> string \<Rightarrow> string" where
  "probe_cmd e pepper repo = pepper @ '' -q '' @ tmp_type e @ '' '' @ repo"

definition normalize_url :: "string \<Rightarrow> string \<Rightarrow> string" where
  "normalize_url type url =
     (if type = ''subversion'' \<and> match_slash url then ''file://'' @ url else url)"

text \<open>Lines 27 to 36: the result is the pair of \<open>type\<close> and \<open>url\<close>. A missing line is
  \<open>nil\<close>, and \<open>nil.strip\<close> raises \<open>NoMethodError\<close>.\<close>

definition probe :: "env \<Rightarrow> string \<Rightarrow> string \<Rightarrow> outcome + (string \<times> string)" where
  "probe e pepper repo =
     (let (output, status) = popen e (pwd0 e) (probe_cmd e pepper repo) [];
          out = readlines output
      in if status \<noteq> 0 then Inl (Exit 1)
         else (case at out 0 of None \<Rightarrow> Inl (Uncaught NoMethodError)
               | Some l0 \<Rightarrow>
                   (case at out 1 of None \<Rightarrow> Inl (Uncaught NoMethodError)
                    | Some l1 \<Rightarrow> Inr (strip l0, normalize_url (strip l0) (strip l1)))))"

subsection \<open>The revision log\<close>

text \<open>Lines 75 to 83: the loop that collects the captures of the matching lines.\<close>

fun extract_log :: "regex \<Rightarrow> string list \<Rightarrow> string list \<Rightarrow> string list" where
  "extract_log regex newlog [] = newlog"
| "extract_log regex newlog (x # xs) =
     (case regex_match regex x of
        Some c \<Rightarrow> extract_log regex (newlog @ [c]) xs
      | None \<Rightarrow> extract_log regex newlog xs)"

definition filter_log :: "entry \<Rightarrow> string list \<Rightarrow> string list" where
  "filter_log ent lines =
     (case logregex ent of None \<Rightarrow> lines | Some regex \<Rightarrow> extract_log regex [] lines)"

definition log_args :: "entry \<Rightarrow> string \<Rightarrow> string list" where
  "log_args ent url = (if passurl ent then [url] else [])"

subsection \<open>The comparison loop\<close>

definition diff_script :: string where
  "diff_script =
     ''function run(self)'' @ [nl, tab] @
     ''local d = self:repository():revision(self:getopt('' @ [quote] @ ''r'' @ [quote] @
     '')):diffstat()'' @ [nl, tab] @
     ''print('' @ [quote] @ ''INSERTED,DELETED,MODIFIED,FILENAME'' @ [quote] @ '')'' @ [nl, tab] @
     ''for i,v in pairs(d:files()) do'' @ [nl, tab, tab] @
     ''print(tostring(d:lines_added(v)) .. '' @ [quote] @ '','' @ [quote] @
     '' .. tostring(d:lines_removed(v)) .. '' @ [quote] @ '',0,'' @ [quote] @ '' .. v)'' @
     [nl, tab] @
     ''end'' @ [nl] @
     ''end''"

text \<open>What the loop body reads and does not change.\<close>

record ctx =
  c_pepper :: string
  c_repo :: string
  c_type :: string
  c_url :: string
  c_entry :: entry
  c_olddir :: string
  c_cwd :: string
  c_total :: nat

text \<open>What one iteration computes: the stripped revision and the two outputs.\<close>

record comparison =
  revision :: string
  out_pepper :: string
  out_native :: string

definition matches :: "comparison \<Rightarrow> bool" where
  "matches c = (\<not> out_pepper c \<noteq> out_native c)"

definition progress :: "nat \<Rightarrow> nat \<Rightarrow> string" where
  "progress i n =
     [CHR 0x1B] @ ''[0K'' @ [CHR 0x0D] @ ''Comparing diffstats... '' @ to_s i @ ''/'' @ to_s n"

definition pepper_cmd :: "env \<Rightarrow> ctx \<Rightarrow> string \<Rightarrow> string" where
  "pepper_cmd e c r =
     c_pepper c @ '' --no-cache -q '' @ tmp_diff e @ '' -r'' @ r @ '' '' @ c_repo c"

definition single_args :: "entry \<Rightarrow> string \<Rightarrow> string \<Rightarrow> string list" where
  "single_args ent url r = (if passurl ent then [r, url] else [r])"

definition diffstat_cmd :: "string \<Rightarrow> string" where
  "diffstat_cmd type = ''diffstat -t -p'' @ (if type = ''subversion'' then ''0'' else ''1'')"

definition pepper_file :: "string \<Rightarrow> string \<Rightarrow> string" where
  "pepper_file olddir r = olddir @ ''/diff.pepper.'' @ r"

definition native_file :: "string \<Rightarrow> string \<Rightarrow> string" where
  "native_file olddir r = olddir @ ''/diff.native.'' @ r"

definition warning :: "string \<Rightarrow> string" where
  "warning r =
     ''Warning: Diffstats for revision '' @ r @ '' don'' @ [quote] @ ''t match! Check diff.pepper.'' @
     r @ '' and diff.native.'' @ r @ [nl]"

text \<open>Lines 123 to 128, when both files can be opened.\<close>

definition report :: "string \<Rightarrow> comparison \<Rightarrow> event list" where
  "report olddir c =
     (if out_pepper c \<noteq> out_native c then
        [FileWrite (pepper_file olddir (revision c)) (out_pepper c),
         FileWrite (native_file olddir (revision c)) (out_native c),
         Stdout [nl],
         Stderr (warning (revision c))]
      else [])"

text \<open>Lines 100 to 128, one iteration for the log entry \<open>x\<close> with counter \<open>i\<close> already
  incremented. \<open>Inl\<close> is an exception, with the events up to it.\<close>

definition compare_rev ::
  "env \<Rightarrow> ctx \<Rightarrow> nat \<Rightarrow> string \<Rightarrow> (event list \<times> exn) + (comparison \<times> event list)" where
  "compare_rev e c i x =
     (let r = strip x;
          ev1 = [Stdout (progress i (c_total c))];
          pcmd = pepper_cmd e c r;
          outp = join (readlines (fst (popen e (c_cwd c) pcmd [])));
          ev2 = [Spawn (c_cwd c) pcmd []]
      in case sprintf (single (c_entry c)) (single_args (c_entry c) (c_url c) r) of
           None \<Rightarrow> Inl (ev1 @ ev2, ArgumentError)
         | Some dcmd \<Rightarrow>
             (let diff_data = readlines (fst (popen e (c_cwd c) dcmd []));
                  input = puts_array diff_data;
                  scmd = diffstat_cmd (c_type c);
                  outn = join (readlines (fst (popen e (c_cwd c) scmd input)));
                  ev3 = [Spawn (c_cwd c) dcmd [], Spawn (c_cwd c) scmd input];
                  cmp = \<lparr>revision = r, out_pepper = outp, out_native = outn\<rparr>
              in Inr (cmp, ev1 @ ev2 @ ev3 @ report (c_olddir c) cmp)))"

text \<open>Lines 98 to 129: the comparisons made, the events, and the exception that ended
  the loop, if any.\<close>

fun compare_loop ::
  "env \<Rightarrow> ctx \<Rightarrow> nat \<Rightarrow> string list \<Rightarrow> comparison list \<times> event list \<times> exn option" where
  "compare_loop e c i [] = ([], [], None)"
| "compare_loop e c i (x # xs) =
     (case compare_rev e c (i + 1) x of
        Inl (evs, ex) \<Rightarrow> ([], evs, Some ex)
      | Inr (cmp, evs) \<Rightarrow>
          (case compare_loop e c (i + 1) xs of
             (cs, evs', r) \<Rightarrow> (cmp # cs, evs @ evs', r)))"

text \<open>Projections of a list of events.\<close>

definition spawns :: "event list \<Rightarrow> (string \<times> string \<times> string) list" where
  "spawns evs = concat (map (\<lambda>ev. case ev of Spawn d c i \<Rightarrow> [(d, c, i)] | _ \<Rightarrow> []) evs)"

definition chdirs :: "event list \<Rightarrow> string list" where
  "chdirs evs = concat (map (\<lambda>ev. case ev of Chdir d \<Rightarrow> [d] | _ \<Rightarrow> []) evs)"

definition file_writes :: "event list \<Rightarrow> (string \<times> string) list" where
  "file_writes evs = concat (map (\<lambda>ev. case ev of FileWrite p c \<Rightarrow> [(p, c)] | _ \<Rightarrow> []) evs)"

definition stderr_lines :: "event list \<Rightarrow> string list" where
  "stderr_lines evs = concat (map (\<lambda>ev. case ev of Stderr s \<Rightarrow> [s] | _ \<Rightarrow> []) evs)"

subsection \<open>The whole script\<close>

record result =
  outcome :: outcome
  trace :: "event list"
  revlog :: "string list"
  comparisons :: "comparison list"

definition stopped :: "outcome \<Rightarrow> event list \<Rightarrow> result" where
  "stopped oc evs = \<lparr>outcome = oc, trace = evs, revlog = [], comparisons = []\<rparr>"

text \<open>Lines 63 to 131, once \<open>type\<close> and \<open>url\<close> are known; \<open>evs\<close> are the events so far.\<close>

definition compare_repo ::
  "env \<Rightarrow> string \<Rightarrow> string \<Rightarrow> string \<Rightarrow> string \<Rightarrow> event list \<Rightarrow> result" where
  "compare_repo e pepper repo type url evs =
     (let olddir = pwd0 e
      in case diffcmd type of
           None \<Rightarrow> stopped (Uncaught NoMethodError) evs
         | Some ent \<Rightarrow>
             (let cwd = (if passurl ent then olddir else url);
                  ev1 = (if passurl ent then [] else [Chdir url]) @
                        [Stdout (''Fetching logs...'' @ [nl])]
              in case sprintf (log ent) (log_args ent url) of
                   None \<Rightarrow> stopped (Uncaught ArgumentError) (evs @ ev1)
                 | Some lcmd \<Rightarrow>
                     (let lg = filter_log ent (readlines (fst (popen e cwd lcmd [])));
                          ev2 = [Spawn cwd lcmd [],
                                 TempWrite (tmp_diff e) diff_script,
                                 Stdout ''Comparing diffstats... ''];
                          c = \<lparr>c_pepper = pepper, c_repo = repo, c_type = type, c_url = url,
                               c_entry = ent, c_olddir = olddir, c_cwd = cwd,
                               c_total = length lg\<rparr>
                      in case compare_loop e c 0 lg of
                           (cs, ev3, Some ex) \<Rightarrow>
                             \<lparr>outcome = Uncaught ex, trace = evs @ ev1 @ ev2 @ ev3,
                              revlog = lg, comparisons = cs\<rparr>
                         | (cs, ev3, None) \<Rightarrow>
                             \<lparr>outcome = Exit 0,
                              trace = evs @ ev1 @ ev2 @ ev3 @ [Stdout [nl]],
                              revlog = lg, comparisons = cs\<rparr>)))"

definition run :: "env \<Rightarrow> string list \<Rightarrow> result" where
  "run e argv =
     (case parse_args e argv of
        Inl x \<Rightarrow> stopped (Uncaught x) []
      | Inr (repo, pepper) \<Rightarrow>
          (let ev0 = [Stdout (''Probing repository...'' @ [nl]),
                      TempWrite (tmp_type e) type_script,
                      Spawn (pwd0 e) (probe_cmd e pepper repo) []]
           in case probe e pepper repo of
                Inl oc \<Rightarrow> stopped oc ev0
              | Inr (type, url) \<Rightarrow> compare_repo e pepper repo type url ev0))"

subsection \<open>The script with failing system calls\<close>







subsection \<open>Sample environments\<close>

text \<open>A launch in \<open>/home/u\<close> on the repository \<open>/srv/repo\<close>. The probe (the
  command that begins with \<open>pepper -q\<close>) prints
  \<open>probe_out\<close> and exits with \<open>status\<close>, the log command prints \<open>log_out\<close>, the tool
  under test prints the files \<open>a\<close> and \<open>b\<close> for every revision, and \<open>diffstat\<close> prints
  them in this order at strip level 0 and in the opposite order at strip level 1.\<close>

definition sample_env :: "string \<Rightarrow> nat \<Rightarrow> string \<Rightarrow> env" where
  "sample_env probe_out status log_out =
     \<lparr>pwd0 = ''/home/u'',
      absolute_path = (\<lambda>p. ''/home/u/'' @ p),
      tmp_type = ''/tmp/type1'',
      tmp_diff = ''/tmp/diff1'',
      popen = (\<lambda>cwd cmd inp.
        if take 10 cmd = ''pepper -q '' then (probe_out, status)
        else if cmd = ''git rev-list HEAD'' \<or> cmd = ''hg log -q'' \<or>
                cmd = ''svn log -q file:///srv/repo'' then (log_out, 0)
        else if cmd = ''diffstat -t -p1'' then (''H'' @ [nl] @ ''b'' @ [nl] @ ''a'' @ [nl], 0)
        else (''H'' @ [nl] @ ''a'' @ [nl] @ ''b'' @ [nl], 0))\<rparr>"

definition sample_ctx :: "string \<Rightarrow> bool \<Rightarrow> ctx" where
  "sample_ctx type pass =
     \<lparr>c_pepper = ''pepper'', c_repo = ''/srv/repo'', c_type = type, c_url = ''/srv/repo'',
      c_entry = \<lparr>log = ''native log'', logregex = None, single = ''native diff %s'',
                 double = ''native diff %s %s'', passurl = pass\<rparr>,
      c_olddir = ''/home/u'', c_cwd = ''/srv/repo'', c_total = 1\<rparr>"



section \<open>Properties\<close>

subsection \<open>Lines, stripping and matching\<close>

lemma join_readlines: "join (readlines s) = s"
  by (induction s) (auto simp: join_def split: list.splits)

lemma readlines_nonempty: "l \<in> set (readlines s) \<Longrightarrow> l \<noteq> []"
  by (induction s arbitrary: l) (auto split: if_splits list.splits)

lemma readlines_nl_last: "l \<in> set (readlines s) \<Longrightarrow> nl \<notin> set (butlast l)"
  by (induction s arbitrary: l) (auto split: if_splits list.splits)

lemma set_strip: "set (strip s) \<subseteq> set s"
  by (auto simp: strip_def dest!: set_dropWhileD)

lemma is_space_nl: "is_space nl"
  by (simp add: is_space_def nl_def)

lemma strip_snoc_space:
  assumes "is_space c" shows "strip (s @ [c]) = strip s"
proof (cases "\<forall>x\<in>set s. is_space x")
  case True
  with assms have a: "dropWhile is_space (s @ [c]) = []" and b: "dropWhile is_space s = []"
    by (auto simp: dropWhile_eq_Nil_conv dest: set_dropWhileD)
  show ?thesis by (simp only: strip_def a b)
next
  case False
  then obtain x where "x \<in> set s" and "\<not> is_space x" by blast
  then have "dropWhile is_space (s @ [c]) = dropWhile is_space s @ [c]"
    by (rule dropWhile_append1)
  with assms show ?thesis by (simp add: strip_def)
qed

lemma strip_line_no_nl:
  assumes "l \<in> set (readlines s)" shows "nl \<notin> set (strip l)"
proof -
  from assms have ne: "l \<noteq> []" and bl: "nl \<notin> set (butlast l)"
    by (rule readlines_nonempty, rule readlines_nl_last)
  from ne have l: "l = butlast l @ [last l]" by simp
  show ?thesis
  proof (cases "last l = nl")
    case True
    with l have "strip l = strip (butlast l)"
      by (metis strip_snoc_space is_space_nl)
    with bl set_strip [of "butlast l"] show ?thesis by auto
  next
    case False
    with bl l have "nl \<notin> set l"
      by (metis insert_iff list.set(1,2) set_append Un_iff empty_iff)
    with set_strip [of l] show ?thesis by auto
  qed
qed

lemma bol_search_False: "nl \<notin> set s \<Longrightarrow> bol_search m False s = None"
  by (induction s) auto

lemma bol_search_no_nl: "nl \<notin> set s \<Longrightarrow> bol_search m True s = (if s = [] then None else m s)"
  by (cases s) (auto simp: bol_search_False split: option.splits)

lemma match_slash_no_nl: "nl \<notin> set u \<Longrightarrow> match_slash u = (take 1 u = ''/'')"
  by (cases u) (auto simp: match_slash_def bol_search_False)

lemma extract_log_eq: "extract_log rx acc xs = acc @ List.map_filter (regex_match rx) xs"
  by (induction xs arbitrary: acc) (auto split: option.splits)

subsection \<open>Events and the command table\<close>

lemma spawns_append: "spawns (a @ b) = spawns a @ spawns b"
  by (simp add: spawns_def)
lemma chdirs_append: "chdirs (a @ b) = chdirs a @ chdirs b"
  by (simp add: chdirs_def)
lemma file_writes_append: "file_writes (a @ b) = file_writes a @ file_writes b"
  by (simp add: file_writes_def)
lemma stderr_lines_append: "stderr_lines (a @ b) = stderr_lines a @ stderr_lines b"
  by (simp add: stderr_lines_def)

lemma diffcmd_cases:
  assumes "diffcmd t = Some ent"
  shows "(t = ''subversion'' \<and> ent = \<lparr>log = ''svn log -q %s'', logregex = Some Rx_r_digits,
         single = ''svn diff -c %s %s'', double = ''svn diff -r %s:%s %s'',
         passurl = True\<rparr>) \<or>
         (t = ''git'' \<and> ent = \<lparr>log = ''git rev-list HEAD'', logregex = None,
         single = ''git diff-tree -U --no-renames --root %s'',
         double = ''git diff-tree -U --no-renames %s %s'',
         passurl = False\<rparr>) \<or>
         (t = ''mercurial'' \<and> ent = \<lparr>log = ''hg log -q'', logregex = Some Rx_digits_colon_any,
         single = ''hg diff -c %s'', double = ''hg diff -r %s -r %s'',
         passurl = False\<rparr>)"
  using assms by (auto simp: diffcmd_def split: if_splits)

lemma single_cmd_ok:
  assumes "diffcmd t = Some ent"
  shows "\<exists>d. sprintf (single ent) (single_args ent url r) = Some d"
  using diffcmd_cases [OF assms] by (auto simp: single_args_def)

lemma log_cmd_ok:
  assumes "diffcmd t = Some ent"
  shows "\<exists>d. sprintf (log ent) (log_args ent url) = Some d"
  using diffcmd_cases [OF assms] by (auto simp: log_args_def)

subsection \<open>The comparison loop\<close>

lemma report_projections:
  "file_writes (report d cmp) =
     (if out_pepper cmp \<noteq> out_native cmp
      then [(pepper_file d (revision cmp), out_pepper cmp),
            (native_file d (revision cmp), out_native cmp)]
      else [])"
  "stderr_lines (report d cmp) =
     (if out_pepper cmp \<noteq> out_native cmp then [warning (revision cmp)] else [])"
  "spawns (report d cmp) = []"
  "chdirs (report d cmp) = []"
  by (auto simp: report_def file_writes_def stderr_lines_def spawns_def chdirs_def)

lemma compare_rev_Some:
  assumes "sprintf (single (c_entry c)) (single_args (c_entry c) (c_url c) (strip x)) = Some d"
  shows "compare_rev e c i x =
    (let cmp = \<lparr>revision = strip x,
                out_pepper = fst (popen e (c_cwd c) (pepper_cmd e c (strip x)) []),
                out_native = fst (popen e (c_cwd c) (diffstat_cmd (c_type c))
                                    (puts_array (readlines (fst (popen e (c_cwd c) d [])))))\<rparr>
     in Inr (cmp,
          [Stdout (progress i (c_total c)),
           Spawn (c_cwd c) (pepper_cmd e c (strip x)) [],
           Spawn (c_cwd c) d [],
           Spawn (c_cwd c) (diffstat_cmd (c_type c))
             (puts_array (readlines (fst (popen e (c_cwd c) d []))))] @
          report (c_olddir c) cmp))"
  using assms by (simp add: compare_rev_def Let_def join_readlines)

lemma compare_rev_None:
  assumes "sprintf (single (c_entry c)) (single_args (c_entry c) (c_url c) (strip x)) = None"
  shows "compare_rev e c i x =
    Inl ([Stdout (progress i (c_total c)), Spawn (c_cwd c) (pepper_cmd e c (strip x)) []],
         ArgumentError)"
  using assms by (simp add: compare_rev_def Let_def)

lemma compare_rev_Inl_events:
  assumes "compare_rev e c i x = Inl (evs, ex)"
  shows "file_writes evs = []" "stderr_lines evs = []" "chdirs evs = []"
    "\<forall>s\<in>set (spawns evs). fst s = c_cwd c"
proof -
  have "sprintf (single (c_entry c)) (single_args (c_entry c) (c_url c) (strip x)) = None"
  proof (cases "sprintf (single (c_entry c)) (single_args (c_entry c) (c_url c) (strip x))")
    case (Some d)
    from compare_rev_Some [OF this, of e i] assms show ?thesis by (simp add: Let_def)
  qed simp
  from compare_rev_None [OF this, of e i] assms
  have "evs = [Stdout (progress i (c_total c)), Spawn (c_cwd c) (pepper_cmd e c (strip x)) []]"
    by simp
  then show "file_writes evs = []" "stderr_lines evs = []" "chdirs evs = []"
    "\<forall>s\<in>set (spawns evs). fst s = c_cwd c"
    by (simp_all add: file_writes_def stderr_lines_def spawns_def chdirs_def)
qed

lemma compare_rev_Inr_events:
  assumes "compare_rev e c i x = Inr (cmp, evs)"
  shows "file_writes evs = file_writes (report (c_olddir c) cmp)"
    "stderr_lines evs = stderr_lines (report (c_olddir c) cmp)"
    "chdirs evs = []"
    "\<forall>s\<in>set (spawns evs). fst s = c_cwd c"
    "revision cmp = strip x"
    "(c_cwd c, pepper_cmd e c (strip x), []) \<in> set (spawns evs)"
proof -
  obtain d where d: "sprintf (single (c_entry c)) (single_args (c_entry c) (c_url c) (strip x)) = Some d"
  proof (cases "sprintf (single (c_entry c)) (single_args (c_entry c) (c_url c) (strip x))")
    case None
    from compare_rev_None [OF this, of e i] assms show ?thesis by simp
  qed simp
  from compare_rev_Some [OF d, of e i] assms
  have evs: "evs = [Stdout (progress i (c_total c)),
           Spawn (c_cwd c) (pepper_cmd e c (strip x)) [],
           Spawn (c_cwd c) d [],
           Spawn (c_cwd c) (diffstat_cmd (c_type c))
             (puts_array (readlines (fst (popen e (c_cwd c) d []))))] @
          report (c_olddir c) cmp"
    and r: "revision cmp = strip x"
    by (auto simp: Let_def)
  show "revision cmp = strip x" by (rule r)
  show "file_writes evs = file_writes (report (c_olddir c) cmp)"
    unfolding evs file_writes_append by (simp add: file_writes_def)
  show "stderr_lines evs = stderr_lines (report (c_olddir c) cmp)"
    unfolding evs stderr_lines_append by (simp add: stderr_lines_def)
  show "chdirs evs = []"
    unfolding evs chdirs_append report_projections by (simp add: chdirs_def)
  show "\<forall>s\<in>set (spawns evs). fst s = c_cwd c"
    unfolding evs spawns_append report_projections by (simp add: spawns_def)
  show "(c_cwd c, pepper_cmd e c (strip x), []) \<in> set (spawns evs)"
    unfolding evs spawns_append report_projections by (simp add: spawns_def)
qed

lemma compare_loop_events:
  assumes "compare_loop e c i xs = (cs, evs, r)"
  shows "file_writes evs = concat (map (\<lambda>cmp. file_writes (report (c_olddir c) cmp)) cs) \<and>
         stderr_lines evs = concat (map (\<lambda>cmp. stderr_lines (report (c_olddir c) cmp)) cs) \<and>
         chdirs evs = [] \<and>
         (\<forall>s\<in>set (spawns evs). fst s = c_cwd c)"
  using assms
proof (induction xs arbitrary: i cs evs r)
  case Nil
  then show ?case by (simp add: file_writes_def stderr_lines_def spawns_def chdirs_def)
next
  case (Cons x xs)
  show ?case
  proof (cases "compare_rev e c (i + 1) x")
    case (Inl a)
    obtain ev1 ex where a: "a = (ev1, ex)" by (cases a)
    from Cons.prems Inl a have "cs = []" "evs = ev1" by simp_all
    with compare_rev_Inl_events [of e c "i + 1" x ev1 ex] Inl a show ?thesis by simp
  next
    case (Inr b)
    obtain cmp ev1 where b: "b = (cmp, ev1)" by (cases b)
    obtain cs' ev2 r' where l: "compare_loop e c (i + 1) xs = (cs', ev2, r')"
      by (cases "compare_loop e c (i + 1) xs") auto
    from Cons.prems Inr b l have eq: "cs = cmp # cs'" "evs = ev1 @ ev2" by simp_all
    from compare_rev_Inr_events [of e c "i + 1" x cmp ev1] Inr b
    have h: "file_writes ev1 = file_writes (report (c_olddir c) cmp)"
      "stderr_lines ev1 = stderr_lines (report (c_olddir c) cmp)"
      "chdirs ev1 = []" "\<forall>s\<in>set (spawns ev1). fst s = c_cwd c"
      by simp_all
    from Cons.IH [OF l] h show ?thesis
      unfolding eq by (auto simp: file_writes_append stderr_lines_append chdirs_append spawns_append)
  qed
qed

lemma compare_loop_ok:
  assumes "\<And>r. \<exists>d. sprintf (single (c_entry c)) (single_args (c_entry c) (c_url c) r) = Some d"
  shows "\<exists>cs evs. compare_loop e c i xs = (cs, evs, None) \<and> map revision cs = map strip xs \<and>
           (\<forall>x\<in>set xs. (c_cwd c, pepper_cmd e c (strip x), []) \<in> set (spawns evs))"
proof (induction xs arbitrary: i)
  case Nil
  show ?case by simp
next
  case (Cons x xs)
  from assms obtain d where
    d: "sprintf (single (c_entry c)) (single_args (c_entry c) (c_url c) (strip x)) = Some d"
    by blast
  from compare_rev_Some [OF d, of e "i + 1"] obtain cmp ev1 where
    cr: "compare_rev e c (i + 1) x = Inr (cmp, ev1)"
    by (simp add: Let_def)
  from Cons.IH [of "i + 1"] obtain cs ev2 where
    l: "compare_loop e c (i + 1) xs = (cs, ev2, None)" and m: "map revision cs = map strip xs"
    and p: "\<forall>x\<in>set xs. (c_cwd c, pepper_cmd e c (strip x), []) \<in> set (spawns ev2)"
    by blast
  from cr l have "compare_loop e c i (x # xs) = (cmp # cs, ev1 @ ev2, None)" by simp
  moreover from compare_rev_Inr_events(5,6) [OF cr] m p
  have "map revision (cmp # cs) = map strip (x # xs)"
    "\<forall>y\<in>set (x # xs). (c_cwd c, pepper_cmd e c (strip y), []) \<in> set (spawns (ev1 @ ev2))"
    by (auto simp: spawns_append)
  ultimately show ?case by blast
qed

subsection \<open>The script after the probe\<close>

lemma compare_repo_unknown:
  assumes "diffcmd t = None"
  shows "compare_repo e p r t u evs = stopped (Uncaught NoMethodError) evs"
  using assms by (simp add: compare_repo_def)

lemma compare_repo_loop:
  fixes e :: env and p r t u :: string and ent :: entry and evs :: "event list"
  defines "cwd \<equiv> (if passurl ent then pwd0 e else u)"
  assumes dc: "diffcmd t = Some ent"
  shows "\<exists>lcmd cs ev3.
     sprintf (log ent) (log_args ent u) = Some lcmd \<and>
     compare_loop e
       \<lparr>c_pepper = p, c_repo = r, c_type = t, c_url = u, c_entry = ent, c_olddir = pwd0 e,
        c_cwd = cwd, c_total = length (filter_log ent (readlines (fst (popen e cwd lcmd []))))\<rparr>
       0 (filter_log ent (readlines (fst (popen e cwd lcmd [])))) = (cs, ev3, None) \<and>
     compare_repo e p r t u evs =
       \<lparr>outcome = Exit 0,
        trace = evs @ (if passurl ent then [] else [Chdir u]) @
          [Stdout (''Fetching logs...'' @ [nl]), Spawn cwd lcmd [],
           TempWrite (tmp_diff e) diff_script, Stdout ''Comparing diffstats... ''] @
          ev3 @ [Stdout [nl]],
        revlog = filter_log ent (readlines (fst (popen e cwd lcmd []))),
        comparisons = cs\<rparr>"
proof -
  from log_cmd_ok [OF dc] obtain lcmd where
    lc: "sprintf (log ent) (log_args ent u) = Some lcmd" by blast
  define lg where "lg = filter_log ent (readlines (fst (popen e cwd lcmd [])))"
  define c where "c = \<lparr>c_pepper = p, c_repo = r, c_type = t, c_url = u, c_entry = ent,
    c_olddir = pwd0 e, c_cwd = cwd, c_total = length lg\<rparr>"
  have "\<And>x. \<exists>d. sprintf (single (c_entry c)) (single_args (c_entry c) (c_url c) x) = Some d"
    using single_cmd_ok [OF dc] by (simp add: c_def)
  from compare_loop_ok [of c e 0 lg, OF this] obtain cs ev3 where
    l: "compare_loop e c 0 lg = (cs, ev3, None)" by blast
  have "compare_repo e p r t u evs =
       \<lparr>outcome = Exit 0,
        trace = evs @ (if passurl ent then [] else [Chdir u]) @
          [Stdout (''Fetching logs...'' @ [nl]), Spawn cwd lcmd [],
           TempWrite (tmp_diff e) diff_script, Stdout ''Comparing diffstats... ''] @
          ev3 @ [Stdout [nl]],
        revlog = lg, comparisons = cs\<rparr>"
    using dc lc l unfolding c_def lg_def cwd_def
    by (simp add: compare_repo_def Let_def)
  with lc l show ?thesis unfolding c_def lg_def by blast
qed

subsection \<open>The whole run\<close>

lemma compare_repo_artifacts:
  "file_writes (trace (compare_repo e p r t u evs)) =
     file_writes evs @
     concat (map (\<lambda>cmp. file_writes (report (pwd0 e) cmp)) (comparisons (compare_repo e p r t u evs))) \<and>
   stderr_lines (trace (compare_repo e p r t u evs)) =
     stderr_lines evs @
     concat (map (\<lambda>cmp. stderr_lines (report (pwd0 e) cmp)) (comparisons (compare_repo e p r t u evs)))"
proof (cases "diffcmd t")
  case None
  then show ?thesis by (simp add: compare_repo_unknown stopped_def)
next
  case (Some ent)
  from compare_repo_loop [OF Some, where e = e and p = p and r = r and u = u and evs = evs]
  obtain lcmd cs ev3 where
    l: "compare_loop e
       \<lparr>c_pepper = p, c_repo = r, c_type = t, c_url = u, c_entry = ent, c_olddir = pwd0 e,
        c_cwd = (if passurl ent then pwd0 e else u),
        c_total = length (filter_log ent (readlines (fst (popen e (if passurl ent then pwd0 e else u) lcmd []))))\<rparr>
       0 (filter_log ent (readlines (fst (popen e (if passurl ent then pwd0 e else u) lcmd [])))) = (cs, ev3, None)"
    and cr: "compare_repo e p r t u evs =
       \<lparr>outcome = Exit 0,
        trace = evs @ (if passurl ent then [] else [Chdir u]) @
          [Stdout (''Fetching logs...'' @ [nl]), Spawn (if passurl ent then pwd0 e else u) lcmd [],
           TempWrite (tmp_diff e) diff_script, Stdout ''Comparing diffstats... ''] @
          ev3 @ [Stdout [nl]],
        revlog = filter_log ent (readlines (fst (popen e (if passurl ent then pwd0 e else u) lcmd []))),
        comparisons = cs\<rparr>"
    by blast
  from compare_loop_events [OF l]
  have "file_writes ev3 = concat (map (\<lambda>cmp. file_writes (report (pwd0 e) cmp)) cs)"
    and "stderr_lines ev3 = concat (map (\<lambda>cmp. stderr_lines (report (pwd0 e) cmp)) cs)"
    by simp_all
  then show ?thesis
    unfolding cr by (simp add: file_writes_append stderr_lines_append)
       (simp add: file_writes_def stderr_lines_def)
qed

lemma run_after_probe:
  assumes "parse_args e argv = Inr (repo, pepper)" and "probe e pepper repo = Inr (type, url)"
  shows "run e argv = compare_repo e pepper repo type url
     [Stdout (''Probing repository...'' @ [nl]), TempWrite (tmp_type e) type_script,
      Spawn (pwd0 e) (probe_cmd e pepper repo) []]"
  using assms by (simp add: run_def)

lemma run_probe_failed:
  assumes "parse_args e argv = Inr (repo, pepper)" and "probe e pepper repo = Inl oc"
  shows "run e argv = stopped oc
     [Stdout (''Probing repository...'' @ [nl]), TempWrite (tmp_type e) type_script,
      Spawn (pwd0 e) (probe_cmd e pepper repo) []]"
  using assms by (simp add: run_def)

lemma probe_cases:
  fixes e pepper repo
  defines "res \<equiv> popen e (pwd0 e) (probe_cmd e pepper repo) []"
  shows "probe e pepper repo =
    (if snd res \<noteq> 0 then Inl (Exit 1)
     else if length (readlines (fst res)) < 2 then Inl (Uncaught NoMethodError)
     else Inr (strip (readlines (fst res) ! 0),
               normalize_url (strip (readlines (fst res) ! 0)) (strip (readlines (fst res) ! 1))))"
  unfolding res_def by (auto simp: probe_def at_def Let_def split: prod.splits)

lemma strip_eq_Nil: "strip s = [] \<longleftrightarrow> (\<forall>c\<in>set s. is_space c)"
proof -
  have "strip s = [] \<longleftrightarrow> (\<forall>c\<in>set (dropWhile is_space s). is_space c)"
    by (simp add: strip_def dropWhile_eq_Nil_conv)
  also have "\<dots> \<longleftrightarrow> (\<forall>c\<in>set s. is_space c)"
  proof
    assume h: "\<forall>c\<in>set (dropWhile is_space s). is_space c"
    have "set s = set (takeWhile is_space s) \<union> set (dropWhile is_space s)"
      by (metis set_append takeWhile_dropWhile_id)
    with h show "\<forall>c\<in>set s. is_space c" by (auto dest: set_takeWhileD)
  next
    assume "\<forall>c\<in>set s. is_space c"
    then show "\<forall>c\<in>set (dropWhile is_space s). is_space c" by (auto dest: set_dropWhileD)
  qed
  finally show ?thesis .
qed

lemma probe_url_no_nl:
  assumes "1 < length (readlines s)"
  shows "nl \<notin> set (strip (readlines s ! 1))"
  using assms by (intro strip_line_no_nl [of _ s]) simp

text \<open>On a line of subprocess output the log patterns can only match at the start of
  the line: the one line feed of the line is its last character.\<close>

lemma bol_search_line_False:
  "nl \<notin> set (butlast l) \<Longrightarrow> bol_search m False l = None"
  by (induction l) (auto split: if_splits)

lemma regex_match_line:
  assumes "l \<in> set (readlines s)"
  shows "regex_match rx l = match_here rx l"
proof -
  from assms have ne: "l \<noteq> []" and bl: "nl \<notin> set (butlast l)"
    by (rule readlines_nonempty, rule readlines_nl_last)
  then obtain c cs where l: "l = c # cs" by (cases l) auto
  show ?thesis
  proof (cases "c = nl")
    case True
    with bl l have "cs = []" by (auto split: if_splits)
    with l show ?thesis by (simp add: regex_match_def split: option.splits)
  next
    case False
    from bl l have "nl \<notin> set (butlast cs)" by (auto split: if_splits)
    then have "bol_search (match_here rx) False cs = None" by (rule bol_search_line_False)
    with l False show ?thesis by (simp add: regex_match_def split: option.splits)
  qed
qed

lemma run_supported:
  fixes e :: env and argv :: "string list" and ent :: entry and url :: string
  defines "cwd \<equiv> (if passurl ent then pwd0 e else url)"
  assumes pa: "parse_args e argv = Inr (repo, pepper)"
    and pr: "probe e pepper repo = Inr (type, url)"
    and dc: "diffcmd type = Some ent"
  shows "\<exists>lcmd ev3.
     sprintf (log ent) (log_args ent url) = Some lcmd \<and>
     outcome (run e argv) = Exit 0 \<and>
     revlog (run e argv) = filter_log ent (readlines (fst (popen e cwd lcmd []))) \<and>
     map revision (comparisons (run e argv)) = map strip (revlog (run e argv)) \<and>
     trace (run e argv) =
       [Stdout (''Probing repository...'' @ [nl]), TempWrite (tmp_type e) type_script,
        Spawn (pwd0 e) (probe_cmd e pepper repo) []] @
       (if passurl ent then [] else [Chdir url]) @
       [Stdout (''Fetching logs...'' @ [nl]), Spawn cwd lcmd [],
        TempWrite (tmp_diff e) diff_script, Stdout ''Comparing diffstats... ''] @
       ev3 @ [Stdout [nl]] \<and>
     chdirs ev3 = [] \<and>
     (\<forall>s\<in>set (spawns ev3). fst s = cwd) \<and>
     (\<forall>x\<in>set (revlog (run e argv)).
        (cwd, pepper @ '' --no-cache -q '' @ tmp_diff e @ '' -r'' @ strip x @ '' '' @ repo, [])
          \<in> set (spawns ev3)) \<and>
     file_writes ev3 =
       concat (map (\<lambda>cmp. file_writes (report (pwd0 e) cmp)) (comparisons (run e argv)))"
proof -
  let ?ev0 = "[Stdout (''Probing repository...'' @ [nl]), TempWrite (tmp_type e) type_script,
        Spawn (pwd0 e) (probe_cmd e pepper repo) []]"
  from compare_repo_loop [OF dc, where e = e and p = pepper and r = repo and u = url
      and evs = ?ev0]
  obtain lcmd cs ev3 where
    lc: "sprintf (log ent) (log_args ent url) = Some lcmd"
    and l: "compare_loop e
       \<lparr>c_pepper = pepper, c_repo = repo, c_type = type, c_url = url, c_entry = ent,
        c_olddir = pwd0 e, c_cwd = cwd,
        c_total = length (filter_log ent (readlines (fst (popen e cwd lcmd []))))\<rparr>
       0 (filter_log ent (readlines (fst (popen e cwd lcmd [])))) = (cs, ev3, None)"
    and cr: "compare_repo e pepper repo type url ?ev0 =
       \<lparr>outcome = Exit 0,
        trace = ?ev0 @ (if passurl ent then [] else [Chdir url]) @
          [Stdout (''Fetching logs...'' @ [nl]), Spawn cwd lcmd [],
           TempWrite (tmp_diff e) diff_script, Stdout ''Comparing diffstats... ''] @
          ev3 @ [Stdout [nl]],
        revlog = filter_log ent (readlines (fst (popen e cwd lcmd []))),
        comparisons = cs\<rparr>"
    unfolding cwd_def by blast
  define lg where "lg = filter_log ent (readlines (fst (popen e cwd lcmd [])))"
  define c where "c = \<lparr>c_pepper = pepper, c_repo = repo, c_type = type, c_url = url,
    c_entry = ent, c_olddir = pwd0 e, c_cwd = cwd, c_total = length lg\<rparr>"
  have l': "compare_loop e c 0 lg = (cs, ev3, None)"
    using l unfolding c_def lg_def .
  have run: "run e argv = \<lparr>outcome = Exit 0,
        trace = ?ev0 @ (if passurl ent then [] else [Chdir url]) @
          [Stdout (''Fetching logs...'' @ [nl]), Spawn cwd lcmd [],
           TempWrite (tmp_diff e) diff_script, Stdout ''Comparing diffstats... ''] @
          ev3 @ [Stdout [nl]],
        revlog = lg, comparisons = cs\<rparr>"
    unfolding run_after_probe [OF pa pr] cr lg_def ..
  have "\<And>x. \<exists>d. sprintf (single (c_entry c)) (single_args (c_entry c) (c_url c) x) = Some d"
    using single_cmd_ok [OF dc] by (simp add: c_def)
  from compare_loop_ok [of c e 0 lg, OF this] l'
  have m: "map revision cs = map strip lg"
    and sp: "\<forall>x\<in>set lg. (c_cwd c, pepper_cmd e c (strip x), []) \<in> set (spawns ev3)"
    by auto
  from compare_loop_events [OF l']
  have ev: "file_writes ev3 = concat (map (\<lambda>cmp. file_writes (report (pwd0 e) cmp)) cs)"
    "chdirs ev3 = []" "\<forall>s\<in>set (spawns ev3). fst s = cwd"
    by (simp_all add: c_def)
  from sp have sp': "\<forall>x\<in>set lg.
        (cwd, pepper @ '' --no-cache -q '' @ tmp_diff e @ '' -r'' @ strip x @ '' '' @ repo, [])
          \<in> set (spawns ev3)"
    by (simp add: c_def pepper_cmd_def)
  from lc m ev sp' show ?thesis
    by (intro exI [of _ lcmd] exI [of _ ev3]) (simp add: run lg_def)
qed

lemma compare_loop_same:
  assumes po: "popen e1 = popen e2"
    and pe: "\<And>x. fst (popen e1 (c_cwd c) (pepper_cmd e1 c x) []) =
                  fst (popen e2 (c_cwd c) (pepper_cmd e2 c x) [])"
  shows "fst (compare_loop e1 c i xs) = fst (compare_loop e2 c i xs)"
proof (induction xs arbitrary: i)
  case Nil
  show ?case by simp
next
  case (Cons x xs)
  show ?case
  proof (cases "sprintf (single (c_entry c)) (single_args (c_entry c) (c_url c) (strip x))")
    case None
    show ?thesis
      by (simp add: compare_rev_None [OF None])
  next
    case (Some d)
    obtain cs1 ev1 r1 where l1: "compare_loop e1 c (i + 1) xs = (cs1, ev1, r1)"
      by (cases "compare_loop e1 c (i + 1) xs") auto
    obtain cs2 ev2 r2 where l2: "compare_loop e2 c (i + 1) xs = (cs2, ev2, r2)"
      by (cases "compare_loop e2 c (i + 1) xs") auto
    from Cons.IH [of "i + 1"] l1 l2 have "cs1 = cs2" by simp
    with l1 l2 show ?thesis
      by (simp add: compare_rev_Some [OF Some] Let_def pe po [symmetric])
  qed
qed

text \<open>The definitions unfolded to evaluate the script on a sample environment.\<close>

lemmas eval_defs = run_def parse_args_def probe_def probe_cmd_def sample_env_def nl_def at_def
  strip_def is_space_def normalize_url_def match_slash_def compare_repo_def diffcmd_def
  log_args_def filter_log_def compare_rev_def single_args_def pepper_cmd_def join_def
  diffstat_cmd_def puts_array_def puts_line_def report_def stopped_def Let_def

subsection \<open>The script with failing system calls\<close>















section \<open>The claims\<close>

text \<open>
  Claim C1. In every iteration of the comparison loop the candidate text is exactly what
  the tool under test printed and the reference text is exactly what \<open>diffstat\<close> printed
  (reading the lines and joining them again changes no byte), and the comparison
  matches if and only if these two byte strings are equal. Nothing is sorted or
  otherwise normalised before the comparison, so a reordering counts as a mismatch.
\<close>

theorem matches_iff_bytes_equal:
  assumes "compare_rev e c i x = Inr (cmp, evs)"
  shows "\<exists>d. sprintf (single (c_entry c)) (single_args (c_entry c) (c_url c) (strip x)) = Some d \<and>
    out_pepper cmp = fst (popen e (c_cwd c) (pepper_cmd e c (strip x)) []) \<and>
    out_native cmp = fst (popen e (c_cwd c) (diffstat_cmd (c_type c))
                            (puts_array (readlines (fst (popen e (c_cwd c) d []))))) \<and>
    (matches cmp \<longleftrightarrow>
       fst (popen e (c_cwd c) (pepper_cmd e c (strip x)) []) =
       fst (popen e (c_cwd c) (diffstat_cmd (c_type c))
              (puts_array (readlines (fst (popen e (c_cwd c) d []))))))"
proof (cases "sprintf (single (c_entry c)) (single_args (c_entry c) (c_url c) (strip x))")
  case None
  from compare_rev_None [OF this, of e i] assms show ?thesis by simp
next
  case (Some d)
  from compare_rev_Some [OF this, of e i] assms
  have "cmp = \<lparr>revision = strip x,
                out_pepper = fst (popen e (c_cwd c) (pepper_cmd e c (strip x)) []),
                out_native = fst (popen e (c_cwd c) (diffstat_cmd (c_type c))
                                    (puts_array (readlines (fst (popen e (c_cwd c) d [])))))\<rparr>"
    by (simp add: Let_def)
  with Some show ?thesis by (simp add: matches_def)
qed

theorem matches_iff_bytes_equal_witness:
  "compare_rev (sample_env [] 0 []) (sample_ctx ''git'' False) 1 (''abc'' @ [nl]) =
     Inr (\<lparr>revision = ''abc'',
           out_pepper = ''H'' @ [nl] @ ''a'' @ [nl] @ ''b'' @ [nl],
           out_native = ''H'' @ [nl] @ ''b'' @ [nl] @ ''a'' @ [nl]\<rparr>,
          [Stdout (progress 1 1),
           Spawn ''/srv/repo'' ''pepper --no-cache -q /tmp/diff1 -rabc /srv/repo'' [],
           Spawn ''/srv/repo'' ''native diff abc'' [],
           Spawn ''/srv/repo'' ''diffstat -t -p1'' (''H'' @ [nl] @ ''a'' @ [nl] @ ''b'' @ [nl]),
           FileWrite ''/home/u/diff.pepper.abc'' (''H'' @ [nl] @ ''a'' @ [nl] @ ''b'' @ [nl]),
           FileWrite ''/home/u/diff.native.abc'' (''H'' @ [nl] @ ''b'' @ [nl] @ ''a'' @ [nl]),
           Stdout [nl],
           Stderr (warning ''abc'')]) \<and>
   \<not> matches \<lparr>revision = ''abc'',
           out_pepper = ''H'' @ [nl] @ ''a'' @ [nl] @ ''b'' @ [nl],
           out_native = ''H'' @ [nl] @ ''b'' @ [nl] @ ''a'' @ [nl]\<rparr>"
proof -
  have h: "compare_rev (sample_env [] 0 []) (sample_ctx ''git'' False) 1 (''abc'' @ [nl]) =
     Inr (\<lparr>revision = ''abc'',
           out_pepper = ''H'' @ [nl] @ ''a'' @ [nl] @ ''b'' @ [nl],
           out_native = ''H'' @ [nl] @ ''b'' @ [nl] @ ''a'' @ [nl]\<rparr>,
          [Stdout (progress 1 1),
           Spawn ''/srv/repo'' ''pepper --no-cache -q /tmp/diff1 -rabc /srv/repo'' [],
           Spawn ''/srv/repo'' ''native diff abc'' [],
           Spawn ''/srv/repo'' ''diffstat -t -p1'' (''H'' @ [nl] @ ''a'' @ [nl] @ ''b'' @ [nl]),
           FileWrite ''/home/u/diff.pepper.abc'' (''H'' @ [nl] @ ''a'' @ [nl] @ ''b'' @ [nl]),
           FileWrite ''/home/u/diff.native.abc'' (''H'' @ [nl] @ ''b'' @ [nl] @ ''a'' @ [nl]),
           Stdout [nl],
           Stderr (warning ''abc'')])"
    by (simp add: compare_rev_def sample_env_def sample_ctx_def single_args_def Let_def
        pepper_cmd_def diffstat_cmd_def nl_def strip_def is_space_def join_def puts_array_def
        puts_line_def report_def pepper_file_def native_file_def)
  from matches_iff_bytes_equal [OF h] h show ?thesis
    by (simp add: sample_env_def sample_ctx_def pepper_cmd_def diffstat_cmd_def single_args_def
        nl_def strip_def is_space_def)
qed




text \<open>
  Claim C3. When the probe subprocess exits with a status other than zero the script
  exits with status 1; when it prints fewer than two lines the script ends with status
  1 as well (on the exception raised by the missing line). In both cases the probe is
  the only subprocess ever spawned and no comparison is made. Otherwise the probe
  yields the first line as the type and the second line as the URL, both stripped of
  surrounding whitespace, the URL normalised.
\<close>

theorem probe_failure_is_fatal:
  assumes "parse_args e argv = Inr (repo, pepper)"
  shows
   "(snd (popen e (pwd0 e) (probe_cmd e pepper repo) []) \<noteq> 0 \<longrightarrow>
       outcome (run e argv) = Exit 1) \<and>
    (snd (popen e (pwd0 e) (probe_cmd e pepper repo) []) \<noteq> 0 \<or>
     length (readlines (fst (popen e (pwd0 e) (probe_cmd e pepper repo) []))) < 2 \<longrightarrow>
       exit_status (outcome (run e argv)) = 1 \<and>
       spawns (trace (run e argv)) = [(pwd0 e, probe_cmd e pepper repo, [])] \<and>
       comparisons (run e argv) = []) \<and>
    (snd (popen e (pwd0 e) (probe_cmd e pepper repo) []) = 0 \<and>
     2 \<le> length (readlines (fst (popen e (pwd0 e) (probe_cmd e pepper repo) []))) \<longrightarrow>
       probe e pepper repo =
         Inr (strip (readlines (fst (popen e (pwd0 e) (probe_cmd e pepper repo) [])) ! 0),
              normalize_url
                (strip (readlines (fst (popen e (pwd0 e) (probe_cmd e pepper repo) [])) ! 0))
                (strip (readlines (fst (popen e (pwd0 e) (probe_cmd e pepper repo) [])) ! 1))))"
proof -
  let ?res = "popen e (pwd0 e) (probe_cmd e pepper repo) []"
  have a: "snd ?res \<noteq> 0 \<Longrightarrow> run e argv = stopped (Exit 1)
     [Stdout (''Probing repository...'' @ [nl]), TempWrite (tmp_type e) type_script,
      Spawn (pwd0 e) (probe_cmd e pepper repo) []]"
    by (rule run_probe_failed [OF assms]) (simp add: probe_cases)
  have b: "snd ?res = 0 \<Longrightarrow> length (readlines (fst ?res)) < 2 \<Longrightarrow>
     run e argv = stopped (Uncaught NoMethodError)
     [Stdout (''Probing repository...'' @ [nl]), TempWrite (tmp_type e) type_script,
      Spawn (pwd0 e) (probe_cmd e pepper repo) []]"
    by (rule run_probe_failed [OF assms]) (simp add: probe_cases)
  have c: "snd ?res = 0 \<Longrightarrow> 2 \<le> length (readlines (fst ?res)) \<Longrightarrow>
     probe e pepper repo =
         Inr (strip (readlines (fst ?res) ! 0),
              normalize_url (strip (readlines (fst ?res) ! 0)) (strip (readlines (fst ?res) ! 1)))"
    by (simp add: probe_cases)
  from a b c show ?thesis
    by (cases "snd ?res = 0") (auto simp: stopped_def spawns_def)
qed

theorem probe_failure_is_fatal_witness:
  "parse_args (sample_env (''git'' @ [nl]) 0 []) [''/srv/repo''] = Inr (''/srv/repo'', ''pepper'') \<and>
   length (readlines (fst (popen (sample_env (''git'' @ [nl]) 0 []) ''/home/u''
      ''pepper -q /tmp/type1 /srv/repo'' []))) < 2 \<and>
   exit_status (outcome (run (sample_env (''git'' @ [nl]) 0 []) [''/srv/repo''])) = 1 \<and>
   snd (popen (sample_env [] 3 []) ''/home/u'' ''pepper -q /tmp/type1 /srv/repo'' []) \<noteq> 0 \<and>
   outcome (run (sample_env [] 3 []) [''/srv/repo'']) = Exit 1 \<and>
   probe (sample_env (''git'' @ [nl] @ ''/srv/repo'' @ [nl]) 0 []) ''pepper'' ''/srv/repo'' =
     Inr (''git'', ''/srv/repo'')"
proof -
  have p: "\<And>a b c. parse_args (sample_env a b c) [''/srv/repo''] = Inr (''/srv/repo'', ''pepper'')"
    by (simp add: parse_args_def)
  have q: "\<And>a b c. pwd0 (sample_env a b c) = ''/home/u''"
    "\<And>a b c. probe_cmd (sample_env a b c) ''pepper'' ''/srv/repo'' = ''pepper -q /tmp/type1 /srv/repo''"
    "\<And>a b c. popen (sample_env a b c) ''/home/u'' ''pepper -q /tmp/type1 /srv/repo'' [] = (a, b)"
    by (simp_all add: sample_env_def probe_cmd_def)
  from probe_failure_is_fatal [OF p, of "''git'' @ [nl]" 0 "[]"]
  have 1: "exit_status (outcome (run (sample_env (''git'' @ [nl]) 0 []) [''/srv/repo''])) = 1"
    by (simp add: q nl_def)
  from probe_failure_is_fatal [OF p, of "[]" 3 "[]"]
  have 2: "outcome (run (sample_env [] 3 []) [''/srv/repo'']) = Exit 1"
    by (simp add: q)
  from probe_failure_is_fatal [OF p, of "''git'' @ [nl] @ ''/srv/repo'' @ [nl]" 0 "[]"]
  have 3: "probe (sample_env (''git'' @ [nl] @ ''/srv/repo'' @ [nl]) 0 []) ''pepper'' ''/srv/repo'' =
     Inr (''git'', ''/srv/repo'')"
    by (simp add: q nl_def strip_def is_space_def normalize_url_def)
  from 1 2 3 show ?thesis by (simp add: p q nl_def)
qed

text \<open>
  Claim C4. The URL of a successful probe is the second output line stripped of
  surrounding whitespace, with \<open>file://\<close> put in front when the type is
  \<open>subversion\<close> and that text begins with a slash, and unchanged otherwise. The
  result is a fixed point of the normalisation: the prefix is added once only.
\<close>

theorem url_normalized_once:
  assumes "probe e pepper repo = Inr (type, url)"
  shows "type = strip (readlines (fst (popen e (pwd0 e) (probe_cmd e pepper repo) [])) ! 0) \<and>
    (let raw = strip (readlines (fst (popen e (pwd0 e) (probe_cmd e pepper repo) [])) ! 1)
     in url = (if type = ''subversion'' \<and> take 1 raw = ''/'' then ''file://'' @ raw else raw)) \<and>
    normalize_url type url = url"
proof -
  let ?out = "readlines (fst (popen e (pwd0 e) (probe_cmd e pepper repo) []))"
  let ?raw = "strip (?out ! 1)"
  from assms have len: "1 < length ?out"
    and t: "type = strip (?out ! 0)" and u: "url = normalize_url type ?raw"
    by (auto simp: probe_cases split: if_splits)
  from len have nonl: "nl \<notin> set ?raw" by (rule probe_url_no_nl)
  then have m: "match_slash ?raw = (take 1 ?raw = ''/'')" by (rule match_slash_no_nl)
  have u': "url = (if type = ''subversion'' \<and> take 1 ?raw = ''/'' then ''file://'' @ ?raw else ?raw)"
    unfolding u normalize_url_def m ..
  have "nl \<notin> set url" using nonl u' by (auto simp: nl_def)
  then have "match_slash url = (take 1 url = ''/'')" by (rule match_slash_no_nl)
  then have "normalize_url type url = url"
    unfolding normalize_url_def using u' by (auto split: if_splits)
  with t u' show ?thesis by (simp add: Let_def)
qed

theorem url_normalized_once_witness:
  "probe (sample_env (''subversion'' @ [nl] @ ''/srv/repo'' @ [nl]) 0 []) ''pepper'' ''/srv/repo'' =
     Inr (''subversion'', ''file:///srv/repo'') \<and>
   normalize_url ''subversion'' ''file:///srv/repo'' = ''file:///srv/repo'' \<and>
   probe (sample_env (''subversion'' @ [nl] @ ''http://host/repo'' @ [nl]) 0 []) ''pepper''
     ''/srv/repo'' = Inr (''subversion'', ''http://host/repo'') \<and>
   probe (sample_env (''git'' @ [nl] @ ''/srv/repo'' @ [nl]) 0 []) ''pepper'' ''/srv/repo'' =
     Inr (''git'', ''/srv/repo'')"
proof -
  have q: "\<And>a b c. pwd0 (sample_env a b c) = ''/home/u''"
    "\<And>a b c. probe_cmd (sample_env a b c) ''pepper'' ''/srv/repo'' = ''pepper -q /tmp/type1 /srv/repo''"
    "\<And>a b c. popen (sample_env a b c) ''/home/u'' ''pepper -q /tmp/type1 /srv/repo'' [] = (a, b)"
    by (simp_all add: sample_env_def probe_cmd_def)
  have 1: "probe (sample_env (''subversion'' @ [nl] @ ''/srv/repo'' @ [nl]) 0 []) ''pepper'' ''/srv/repo'' =
     Inr (''subversion'', ''file:///srv/repo'')"
    by (simp add: probe_cases q nl_def strip_def is_space_def normalize_url_def match_slash_def)
  have 2: "probe (sample_env (''subversion'' @ [nl] @ ''http://host/repo'' @ [nl]) 0 []) ''pepper''
     ''/srv/repo'' = Inr (''subversion'', ''http://host/repo'')"
    by (simp add: probe_cases q nl_def strip_def is_space_def normalize_url_def match_slash_def)
  have 3: "probe (sample_env (''git'' @ [nl] @ ''/srv/repo'' @ [nl]) 0 []) ''pepper'' ''/srv/repo'' =
     Inr (''git'', ''/srv/repo'')"
    by (simp add: probe_cases q nl_def strip_def is_space_def normalize_url_def match_slash_def)
  note url_normalized_once [OF 1, THEN conjunct2, THEN conjunct2]
    url_normalized_once [OF 2, THEN conjunct2, THEN conjunct2]
  with 1 2 3 show ?thesis by (simp only: simp_thms)
qed

text \<open>
  Claim C5. With an extractor (Subversion, Mercurial) the log becomes the first captures
  of the matching lines, in the order of the lines; lines that do not match are
  dropped. The Mercurial line \<open>5:abc123def\<close> gives \<open>abc123def\<close>, and a blank line
  matches neither pattern.
\<close>

theorem extractor_keeps_captures_in_order:
  "(logregex ent = Some rx \<longrightarrow>
      filter_log ent lines = List.map_filter (regex_match rx) lines) \<and>
   (\<exists>ent. diffcmd ''subversion'' = Some ent \<and> logregex ent = Some Rx_r_digits) \<and>
   (\<exists>ent. diffcmd ''mercurial'' = Some ent \<and> logregex ent = Some Rx_digits_colon_any) \<and>
   regex_match Rx_digits_colon_any (''5:abc123def'' @ [nl]) = Some ''abc123def'' \<and>
   regex_match Rx_digits_colon_any [nl] = None \<and>
   regex_match Rx_r_digits [nl] = None"
  by (simp add: filter_log_def extract_log_eq diffcmd_def regex_match_def nl_def is_digit_def)

theorem extractor_keeps_captures_in_order_witness:
  "logregex \<lparr>log = ''hg log -q'', logregex = Some Rx_digits_colon_any,
             single = ''hg diff -c %s'', double = ''hg diff -r %s -r %s'',
             passurl = False\<rparr> = Some Rx_digits_colon_any \<and>
   filter_log \<lparr>log = ''hg log -q'', logregex = Some Rx_digits_colon_any,
             single = ''hg diff -c %s'', double = ''hg diff -r %s -r %s'',
             passurl = False\<rparr>
     [''5:abc123def'' @ [nl], [nl], ''4:0f9e'' @ [nl], ''tip'' @ [nl]] = [''abc123def'', ''0f9e'']"
  using extractor_keeps_captures_in_order
    [of "\<lparr>log = ''hg log -q'', logregex = Some Rx_digits_colon_any,
             single = ''hg diff -c %s'', double = ''hg diff -r %s -r %s'',
             passurl = False\<rparr>" Rx_digits_colon_any
        "[''5:abc123def'' @ [nl], [nl], ''4:0f9e'' @ [nl], ''tip'' @ [nl]]"]
  by (simp add: List.map_filter_simps regex_match_def nl_def is_digit_def)

text \<open>
  Claim C6. The commands of the three backends, for every URL and revision: the log
  command, the text of the extractor, the diff command of a single revision, whether
  the URL is passed, and the \<open>diffstat\<close> command with its strip level.
\<close>

theorem command_table_exact:
  "(\<exists>ent. diffcmd ''subversion'' = Some ent \<and>
      sprintf (log ent) (log_args ent url) = Some (''svn log -q '' @ url) \<and>
      map_option regex_source (logregex ent) = Some ''^r([0-9]+)'' \<and>
      sprintf (single ent) (single_args ent url r) = Some (''svn diff -c '' @ r @ '' '' @ url) \<and>
      passurl ent = True \<and>
      diffstat_cmd ''subversion'' = ''diffstat -t -p0'') \<and>
   (\<exists>ent. diffcmd ''git'' = Some ent \<and>
      sprintf (log ent) (log_args ent url) = Some ''git rev-list HEAD'' \<and>
      map_option regex_source (logregex ent) = None \<and>
      sprintf (single ent) (single_args ent url r) =
        Some (''git diff-tree -U --no-renames --root '' @ r) \<and>
      passurl ent = False \<and>
      diffstat_cmd ''git'' = ''diffstat -t -p1'') \<and>
   (\<exists>ent. diffcmd ''mercurial'' = Some ent \<and>
      sprintf (log ent) (log_args ent url) = Some ''hg log -q'' \<and>
      map_option regex_source (logregex ent) = Some ''^[0-9]+:(.*)'' \<and>
      sprintf (single ent) (single_args ent url r) = Some (''hg diff -c '' @ r) \<and>
      passurl ent = False \<and>
      diffstat_cmd ''mercurial'' = ''diffstat -t -p1'')"
  by (simp add: diffcmd_def log_args_def single_args_def diffstat_cmd_def)

text \<open>
  Claim C7 as stated fails on a blank line in the log output: the script does not skip
  it, and the revision it yields is the empty string.
\<close>

theorem git_blank_line_counterexample:
  "probe (sample_env (''git'' @ [nl] @ ''/srv/repo'' @ [nl]) 0
            (''abc'' @ [nl] @ [nl] @ ''def'' @ [nl])) ''pepper'' ''/srv/repo'' =
     Inr (''git'', ''/srv/repo'') \<and>
   revlog (run (sample_env (''git'' @ [nl] @ ''/srv/repo'' @ [nl]) 0
                  (''abc'' @ [nl] @ [nl] @ ''def'' @ [nl])) [''/srv/repo'']) =
     [''abc'' @ [nl], [nl], ''def'' @ [nl]] \<and>
   map revision
     (comparisons (run (sample_env (''git'' @ [nl] @ ''/srv/repo'' @ [nl]) 0
                          (''abc'' @ [nl] @ [nl] @ ''def'' @ [nl])) [''/srv/repo''])) =
     [''abc'', [], ''def'']"
  by (simp add: eval_defs)

text \<open>
  Claim C7, as the script has it. For a Git repository the log is the list of the output
  lines as they are, terminators included, so no entry of the log is the empty string.
  Every line, blank or not, gives one revision in order: the line with surrounding
  whitespace stripped. All revisions are non-empty exactly when every line has a
  character that is not whitespace.
\<close>

theorem git_revisions_are_stripped_lines:
  assumes "parse_args e argv = Inr (repo, pepper)"
    and "probe e pepper repo = Inr (''git'', url)"
  shows "revlog (run e argv) = readlines (fst (popen e url ''git rev-list HEAD'' [])) \<and>
    (\<forall>l\<in>set (revlog (run e argv)). l \<noteq> []) \<and>
    map revision (comparisons (run e argv)) =
      map strip (readlines (fst (popen e url ''git rev-list HEAD'' []))) \<and>
    ((\<forall>r\<in>set (map revision (comparisons (run e argv))). r \<noteq> []) \<longleftrightarrow>
     (\<forall>l\<in>set (readlines (fst (popen e url ''git rev-list HEAD'' []))).
        \<exists>ch\<in>set l. \<not> is_space ch))"
proof -
  have dc: "diffcmd ''git'' = Some \<lparr>log = ''git rev-list HEAD'', logregex = None,
         single = ''git diff-tree -U --no-renames --root %s'',
         double = ''git diff-tree -U --no-renames %s %s'',
         passurl = False\<rparr>"
    by (simp add: diffcmd_def)
  from run_supported [OF assms dc]
  have lg: "revlog (run e argv) = readlines (fst (popen e url ''git rev-list HEAD'' []))"
    and m: "map revision (comparisons (run e argv)) = map strip (revlog (run e argv))"
    by (auto simp: log_args_def filter_log_def)
  have "(\<forall>r\<in>set (map strip (revlog (run e argv))). r \<noteq> []) \<longleftrightarrow>
     (\<forall>l\<in>set (revlog (run e argv)). \<exists>ch\<in>set l. \<not> is_space ch)"
    by (auto simp: strip_eq_Nil)
  moreover have "\<forall>l\<in>set (revlog (run e argv)). l \<noteq> []"
    unfolding lg by (auto dest: readlines_nonempty)
  ultimately show ?thesis using lg m by simp
qed

theorem git_revisions_are_stripped_lines_witness:
  "parse_args (sample_env (''git'' @ [nl] @ ''/srv/repo'' @ [nl]) 0
                 (''abc '' @ [nl] @ ''def'' @ [nl])) [''/srv/repo''] =
     Inr (''/srv/repo'', ''pepper'') \<and>
   probe (sample_env (''git'' @ [nl] @ ''/srv/repo'' @ [nl]) 0
            (''abc '' @ [nl] @ ''def'' @ [nl])) ''pepper'' ''/srv/repo'' =
     Inr (''git'', ''/srv/repo'') \<and>
   map revision
     (comparisons (run (sample_env (''git'' @ [nl] @ ''/srv/repo'' @ [nl]) 0
                          (''abc '' @ [nl] @ ''def'' @ [nl])) [''/srv/repo''])) =
     [''abc'', ''def'']"
proof -
  let ?E = "sample_env (''git'' @ [nl] @ ''/srv/repo'' @ [nl]) 0 (''abc '' @ [nl] @ ''def'' @ [nl])"
  have p: "parse_args ?E [''/srv/repo''] = Inr (''/srv/repo'', ''pepper'')"
    by (simp add: parse_args_def)
  have pr: "probe ?E ''pepper'' ''/srv/repo'' = Inr (''git'', ''/srv/repo'')"
    by (simp add: eval_defs)
  have lg: "readlines (fst (popen ?E ''/srv/repo'' ''git rev-list HEAD'' [])) =
    [''abc '' @ [nl], ''def'' @ [nl]]"
    by (simp add: sample_env_def nl_def)
  from git_revisions_are_stripped_lines [OF p pr]
  have "map revision (comparisons (run ?E [''/srv/repo''])) = [''abc'', ''def'']"
    unfolding lg by (simp add: strip_def is_space_def nl_def)
  with p pr show ?thesis by simp
qed




text \<open>
  Claim C9. Two runs with the same arguments in the same environment differ in the names
  of their temporary files only. When the tool under test prints the same for either
  name, both runs end alike, with the same log, the same revisions in the same order
  and the same comparison results.
\<close>

theorem rerun_same_revisions_and_matches:
  assumes pa: "parse_args e argv = Inr (repo, pepper)"
    and hp: "popen e (pwd0 e) (pepper @ '' -q '' @ a1 @ '' '' @ repo) [] =
             popen e (pwd0 e) (pepper @ '' -q '' @ a2 @ '' '' @ repo) []"
    and hd: "\<forall>cwd r.
       fst (popen e cwd (pepper @ '' --no-cache -q '' @ b1 @ '' -r'' @ r @ '' '' @ repo) []) =
       fst (popen e cwd (pepper @ '' --no-cache -q '' @ b2 @ '' -r'' @ r @ '' '' @ repo) [])"
  shows "outcome (run (e\<lparr>tmp_type := a1, tmp_diff := b1\<rparr>) argv) =
         outcome (run (e\<lparr>tmp_type := a2, tmp_diff := b2\<rparr>) argv) \<and>
    revlog (run (e\<lparr>tmp_type := a1, tmp_diff := b1\<rparr>) argv) =
      revlog (run (e\<lparr>tmp_type := a2, tmp_diff := b2\<rparr>) argv) \<and>
    map revision (comparisons (run (e\<lparr>tmp_type := a1, tmp_diff := b1\<rparr>) argv)) =
      map revision (comparisons (run (e\<lparr>tmp_type := a2, tmp_diff := b2\<rparr>) argv)) \<and>
    map matches (comparisons (run (e\<lparr>tmp_type := a1, tmp_diff := b1\<rparr>) argv)) =
      map matches (comparisons (run (e\<lparr>tmp_type := a2, tmp_diff := b2\<rparr>) argv))"
proof -
  define e1 where "e1 = e\<lparr>tmp_type := a1, tmp_diff := b1\<rparr>"
  define e2 where "e2 = e\<lparr>tmp_type := a2, tmp_diff := b2\<rparr>"
  have po: "popen e1 = popen e2" and pw: "pwd0 e1 = pwd0 e2"
    by (simp_all add: e1_def e2_def)
  have pa1: "parse_args e1 argv = Inr (repo, pepper)"
    and pa2: "parse_args e2 argv = Inr (repo, pepper)"
  proof -
    have "parse_args e1 argv = parse_args e argv" "parse_args e2 argv = parse_args e argv"
      by (simp_all add: parse_args_def e1_def e2_def)
    with pa show "parse_args e1 argv = Inr (repo, pepper)" "parse_args e2 argv = Inr (repo, pepper)"
      by simp_all
  qed
  have pr: "probe e1 pepper repo = probe e2 pepper repo"
    using hp by (simp add: probe_def probe_cmd_def e1_def e2_def)
  have main: "outcome (run e1 argv) = outcome (run e2 argv) \<and>
    revlog (run e1 argv) = revlog (run e2 argv) \<and>
    comparisons (run e1 argv) = comparisons (run e2 argv)"
  proof (cases "probe e1 pepper repo")
    case (Inl oc)
    with pr have "probe e2 pepper repo = Inl oc" by simp
    from run_probe_failed [OF pa1 Inl] run_probe_failed [OF pa2 this]
    show ?thesis by (simp add: stopped_def)
  next
    case (Inr b)
    obtain type url where b: "b = (type, url)" by (cases b)
    from Inr b pr have pr1: "probe e1 pepper repo = Inr (type, url)"
      and pr2: "probe e2 pepper repo = Inr (type, url)" by simp_all
    note r1 = run_after_probe [OF pa1 pr1] and r2 = run_after_probe [OF pa2 pr2]
    show ?thesis
    proof (cases "diffcmd type")
      case None
      show ?thesis unfolding r1 r2 by (simp add: compare_repo_unknown [OF None] stopped_def)
    next
      case (Some ent)
      define cwd where "cwd = (if passurl ent then pwd0 e1 else url)"
      from compare_repo_loop [OF Some, where e = e1 and p = pepper and r = repo and u = url]
        r1
      obtain lcmd cs1 ev1 where
        lc: "sprintf (log ent) (log_args ent url) = Some lcmd"
        and l1: "compare_loop e1
          \<lparr>c_pepper = pepper, c_repo = repo, c_type = type, c_url = url, c_entry = ent,
           c_olddir = pwd0 e1, c_cwd = cwd,
           c_total = length (filter_log ent (readlines (fst (popen e1 cwd lcmd []))))\<rparr>
          0 (filter_log ent (readlines (fst (popen e1 cwd lcmd [])))) = (cs1, ev1, None)"
        and o1: "outcome (run e1 argv) = Exit 0"
          "revlog (run e1 argv) = filter_log ent (readlines (fst (popen e1 cwd lcmd [])))"
          "comparisons (run e1 argv) = cs1"
        unfolding cwd_def by (metis result.select_convs(1,3,4))
      from compare_repo_loop [OF Some, where e = e2 and p = pepper and r = repo and u = url]
        r2 lc
      obtain cs2 ev2 where
        l2: "compare_loop e2
          \<lparr>c_pepper = pepper, c_repo = repo, c_type = type, c_url = url, c_entry = ent,
           c_olddir = pwd0 e1, c_cwd = cwd,
           c_total = length (filter_log ent (readlines (fst (popen e1 cwd lcmd []))))\<rparr>
          0 (filter_log ent (readlines (fst (popen e1 cwd lcmd [])))) = (cs2, ev2, None)"
        and o2: "outcome (run e2 argv) = Exit 0"
          "revlog (run e2 argv) = filter_log ent (readlines (fst (popen e1 cwd lcmd [])))"
          "comparisons (run e2 argv) = cs2"
        unfolding cwd_def po pw by (metis option.inject result.select_convs(1,3,4))
      have "\<And>c x. c_pepper c = pepper \<Longrightarrow> c_repo c = repo \<Longrightarrow>
         fst (popen e1 (c_cwd c) (pepper_cmd e1 c x) []) =
         fst (popen e2 (c_cwd c) (pepper_cmd e2 c x) [])"
        using hd by (simp add: pepper_cmd_def e1_def e2_def)
      from compare_loop_same [OF po this, of _ 0] l1 l2
      have "cs1 = cs2" by (metis ctx.select_convs(1,2) fst_conv)
      with o1 o2 show ?thesis by simp
    qed
  qed
  then show ?thesis unfolding e1_def e2_def by simp
qed

theorem rerun_same_revisions_and_matches_witness:
  "parse_args (sample_env (''git'' @ [nl] @ ''/srv/repo'' @ [nl]) 0 (''abc'' @ [nl] @ ''def'' @ [nl]))
     [''/srv/repo''] = Inr (''/srv/repo'', ''pepper'') \<and>
   map revision (comparisons (run
     ((sample_env (''git'' @ [nl] @ ''/srv/repo'' @ [nl]) 0 (''abc'' @ [nl] @ ''def'' @ [nl]))
        \<lparr>tmp_type := ''/tmp/type1'', tmp_diff := ''/tmp/diff1''\<rparr>) [''/srv/repo''])) =
   map revision (comparisons (run
     ((sample_env (''git'' @ [nl] @ ''/srv/repo'' @ [nl]) 0 (''abc'' @ [nl] @ ''def'' @ [nl]))
        \<lparr>tmp_type := ''/tmp/type2'', tmp_diff := ''/tmp/diff2''\<rparr>) [''/srv/repo''])) \<and>
   map matches (comparisons (run
     ((sample_env (''git'' @ [nl] @ ''/srv/repo'' @ [nl]) 0 (''abc'' @ [nl] @ ''def'' @ [nl]))
        \<lparr>tmp_type := ''/tmp/type1'', tmp_diff := ''/tmp/diff1''\<rparr>) [''/srv/repo''])) =
   map matches (comparisons (run
     ((sample_env (''git'' @ [nl] @ ''/srv/repo'' @ [nl]) 0 (''abc'' @ [nl] @ ''def'' @ [nl]))
        \<lparr>tmp_type := ''/tmp/type2'', tmp_diff := ''/tmp/diff2''\<rparr>) [''/srv/repo'']))"
proof -
  let ?E = "sample_env (''git'' @ [nl] @ ''/srv/repo'' @ [nl]) 0 (''abc'' @ [nl] @ ''def'' @ [nl])"
  have p: "parse_args ?E [''/srv/repo''] = Inr (''/srv/repo'', ''pepper'')"
    by (simp add: parse_args_def)
  have hp: "popen ?E (pwd0 ?E) (''pepper'' @ '' -q '' @ ''/tmp/type1'' @ '' '' @ ''/srv/repo'') [] =
            popen ?E (pwd0 ?E) (''pepper'' @ '' -q '' @ ''/tmp/type2'' @ '' '' @ ''/srv/repo'') []"
    by (simp add: sample_env_def)
  have hd: "\<forall>cwd r.
      fst (popen ?E cwd
        (''pepper'' @ '' --no-cache -q '' @ ''/tmp/diff1'' @ '' -r'' @ r @ '' '' @ ''/srv/repo'') []) =
      fst (popen ?E cwd
        (''pepper'' @ '' --no-cache -q '' @ ''/tmp/diff2'' @ '' -r'' @ r @ '' '' @ ''/srv/repo'') [])"
    by (simp add: sample_env_def)
  from rerun_same_revisions_and_matches [OF p hp hd] p show ?thesis
    by (simp only: simp_thms)
qed

text \<open>
  Claim C10. For Git and Mercurial the script changes directory exactly once, to the URL
  of the probe, right after the probe and before the log command. Every later
  subprocess runs in that directory, the tool under test among them, which is given
  the first command line argument as it is; the files of a mismatch are still written
  under the directory of the launch.
\<close>

theorem chdir_once_before_log:
  assumes pa: "parse_args e argv = Inr (repo, pepper)"
    and pr: "probe e pepper repo = Inr (type, url)"
    and ty: "type = ''git'' \<or> type = ''mercurial''"
  shows "repo = argv ! 0 \<and>
    chdirs (trace (run e argv)) = [url] \<and>
    (\<exists>post.
       trace (run e argv) =
         [Stdout (''Probing repository...'' @ [nl]), TempWrite (tmp_type e) type_script,
          Spawn (pwd0 e) (probe_cmd e pepper repo) [], Chdir url] @ post \<and>
       take 1 (spawns post) =
         [(url, if type = ''git'' then ''git rev-list HEAD'' else ''hg log -q'', [])] \<and>
       (\<forall>s\<in>set (spawns post). fst s = url) \<and>
       (\<forall>x\<in>set (revlog (run e argv)).
          (url, pepper @ '' --no-cache -q '' @ tmp_diff e @ '' -r'' @ strip x @ '' '' @ repo, [])
            \<in> set (spawns post)) \<and>
       (\<forall>f\<in>set (file_writes post).
          \<exists>r. fst f = pwd0 e @ ''/diff.pepper.'' @ r \<or> fst f = pwd0 e @ ''/diff.native.'' @ r))"
proof -
  from ty obtain ent where dc: "diffcmd type = Some ent" and np: "\<not> passurl ent"
    and lc: "sprintf (log ent) (log_args ent url) =
       Some (if type = ''git'' then ''git rev-list HEAD'' else ''hg log -q'')"
    by (auto simp: diffcmd_def log_args_def)
  from run_supported [OF pa pr dc] np lc obtain ev3 where
    tr: "trace (run e argv) =
       [Stdout (''Probing repository...'' @ [nl]), TempWrite (tmp_type e) type_script,
        Spawn (pwd0 e) (probe_cmd e pepper repo) []] @ [Chdir url] @
       [Stdout (''Fetching logs...'' @ [nl]),
        Spawn url (if type = ''git'' then ''git rev-list HEAD'' else ''hg log -q'') [],
        TempWrite (tmp_diff e) diff_script, Stdout ''Comparing diffstats... ''] @
       ev3 @ [Stdout [nl]]"
    and cd: "chdirs ev3 = []"
    and sp: "\<forall>s\<in>set (spawns ev3). fst s = url"
    and pp: "\<forall>x\<in>set (revlog (run e argv)).
        (url, pepper @ '' --no-cache -q '' @ tmp_diff e @ '' -r'' @ strip x @ '' '' @ repo, [])
          \<in> set (spawns ev3)"
    and fw: "file_writes ev3 =
       concat (map (\<lambda>cmp. file_writes (report (pwd0 e) cmp)) (comparisons (run e argv)))"
    by (auto simp del: append.simps)
  define post where "post =
       [Stdout (''Fetching logs...'' @ [nl]),
        Spawn url (if type = ''git'' then ''git rev-list HEAD'' else ''hg log -q'') [],
        TempWrite (tmp_diff e) diff_script, Stdout ''Comparing diffstats... ''] @
       ev3 @ [Stdout [nl]]"
  have sps: "spawns post =
    (url, if type = ''git'' then ''git rev-list HEAD'' else ''hg log -q'', []) # spawns ev3"
    unfolding post_def spawns_append by (simp add: spawns_def)
  have fws: "file_writes post = file_writes ev3"
    unfolding post_def file_writes_append by (simp add: file_writes_def)
  have cds: "chdirs post = []"
    unfolding post_def chdirs_append cd by (simp add: chdirs_def)
  have 1: "repo = argv ! 0"
    using pa by (auto simp: parse_args_def split: if_splits)
  have 2: "trace (run e argv) =
         [Stdout (''Probing repository...'' @ [nl]), TempWrite (tmp_type e) type_script,
          Spawn (pwd0 e) (probe_cmd e pepper repo) [], Chdir url] @ post"
    unfolding tr post_def by simp
  have 3: "chdirs (trace (run e argv)) = [url]"
    unfolding 2 chdirs_append cds by (simp add: chdirs_def)
  have 4: "\<forall>f\<in>set (file_writes post).
          \<exists>r. fst f = pwd0 e @ ''/diff.pepper.'' @ r \<or> fst f = pwd0 e @ ''/diff.native.'' @ r"
    unfolding fws fw
    by (auto simp: report_projections pepper_file_def native_file_def split: if_splits)
  from sp pp have 5: "\<forall>s\<in>set (spawns post). fst s = url"
    and 6: "\<forall>x\<in>set (revlog (run e argv)).
          (url, pepper @ '' --no-cache -q '' @ tmp_diff e @ '' -r'' @ strip x @ '' '' @ repo, [])
            \<in> set (spawns post)"
    unfolding sps by simp_all
  have 7: "take 1 (spawns post) =
         [(url, if type = ''git'' then ''git rev-list HEAD'' else ''hg log -q'', [])]"
    unfolding sps by simp
  from 1 3 2 7 5 6 4 show ?thesis by blast
qed

theorem chdir_once_before_log_witness:
  "probe (sample_env (''git'' @ [nl] @ ''/srv/repo'' @ [nl]) 0 (''abc'' @ [nl]))
     ''pepper'' ''/srv/repo'' = Inr (''git'', ''/srv/repo'') \<and>
   chdirs (trace (run (sample_env (''git'' @ [nl] @ ''/srv/repo'' @ [nl]) 0 (''abc'' @ [nl]))
     [''/srv/repo''])) = [''/srv/repo''] \<and>
   spawns (trace (run (sample_env (''git'' @ [nl] @ ''/srv/repo'' @ [nl]) 0 (''abc'' @ [nl]))
     [''/srv/repo''])) =
     [(''/home/u'', ''pepper -q /tmp/type1 /srv/repo'', []),
      (''/srv/repo'', ''git rev-list HEAD'', []),
      (''/srv/repo'', ''pepper --no-cache -q /tmp/diff1 -rabc /srv/repo'', []),
      (''/srv/repo'', ''git diff-tree -U --no-renames --root abc'', []),
      (''/srv/repo'', ''diffstat -t -p1'', ''H'' @ [nl] @ ''a'' @ [nl] @ ''b'' @ [nl])] \<and>
   map fst (file_writes (trace (run (sample_env (''git'' @ [nl] @ ''/srv/repo'' @ [nl]) 0
     (''abc'' @ [nl])) [''/srv/repo'']))) = [''/home/u/diff.pepper.abc'', ''/home/u/diff.native.abc'']"
proof -
  let ?E = "sample_env (''git'' @ [nl] @ ''/srv/repo'' @ [nl]) 0 (''abc'' @ [nl])"
  have p: "parse_args ?E [''/srv/repo''] = Inr (''/srv/repo'', ''pepper'')"
    by (simp add: parse_args_def)
  have pr: "probe ?E ''pepper'' ''/srv/repo'' = Inr (''git'', ''/srv/repo'')"
    by (simp add: eval_defs)
  have sp: "spawns (trace (run ?E [''/srv/repo''])) =
     [(''/home/u'', ''pepper -q /tmp/type1 /srv/repo'', []),
      (''/srv/repo'', ''git rev-list HEAD'', []),
      (''/srv/repo'', ''pepper --no-cache -q /tmp/diff1 -rabc /srv/repo'', []),
      (''/srv/repo'', ''git diff-tree -U --no-renames --root abc'', []),
      (''/srv/repo'', ''diffstat -t -p1'', ''H'' @ [nl] @ ''a'' @ [nl] @ ''b'' @ [nl])]"
    by (simp add: eval_defs spawns_def)
  have fw: "map fst (file_writes (trace (run ?E [''/srv/repo'']))) =
    [''/home/u/diff.pepper.abc'', ''/home/u/diff.native.abc'']"
    by (simp add: eval_defs file_writes_def pepper_file_def native_file_def)
  from chdir_once_before_log [OF p pr]
  have "chdirs (trace (run ?E [''/srv/repo''])) = [''/srv/repo'']" by simp
  with pr sp fw show ?thesis by (simp only: simp_thms)
qed

end
